theory Spec2Isabelle
  imports Main "HOL-Library.Sublist"
begin

unbundle bit_operations_syntax

text \<open>
  A model of \<open>pkg/standalone/standalone.go\<close>: the setup tasks of \<open>Init\<close> as functions on an
  explicit host, and \<open>Init\<close> with its goroutines, wait group and channel as a transition
  system, followed by the properties proved of them.
\<close>

section \<open>Go values used by package standalone\<close>

subsection \<open>Errors\<close>

text \<open>
  A Go \<open>error\<close> value. The code tells errors apart in two ways only: by the dynamic type
  \<open>*exec.ExitError\<close> together with its \<open>ExitCode()\<close>, and (in \<open>os.IsExist\<close>) by the
  underlying errno. Every error also has its \<open>Error()\<close> text, which \<open>fmt.Errorf("%s")\<close>
  reads.
\<close>

datatype errno = ENOENT | EEXIST | ENOTEMPTY | EACCES | EIO

datatype error =
    ExitError int string     \<comment> \<open>\<open>*exec.ExitError\<close>: \<open>ExitCode()\<close> and \<open>Error()\<close>\<close>
  | SysError errno string    \<comment> \<open>an error of package os with its errno and \<open>Error()\<close>\<close>
  | ErrorString string       \<comment> \<open>\<open>fmt.Errorf\<close>, and any other error value, by its text\<close>

fun Error :: "error \<Rightarrow> string" where
  "Error (ExitError code m) = m"
| "Error (SysError k m) = m"
| "Error (ErrorString m) = m"

text \<open>\<open>os.IsExist\<close>: true for \<open>EEXIST\<close> and \<open>ENOTEMPTY\<close> only; false for \<open>nil\<close>.\<close>

fun os_IsExist :: "error option \<Rightarrow> bool" where
  "os_IsExist None = False"
| "os_IsExist (Some (SysError k m)) = (k = EEXIST \<or> k = ENOTEMPTY)"
| "os_IsExist (Some e) = False"

subsection \<open>Strings and paths\<close>

text \<open>\<open>strings.Contains\<close>: some suffix of \<open>s\<close> starts with \<open>substr\<close>.\<close>

fun strings_Contains :: "string \<Rightarrow> string \<Rightarrow> bool" where
  "strings_Contains [] substr = (substr = [])"
| "strings_Contains (c # s) substr = (prefix substr (c # s) \<or> strings_Contains s substr)"

text \<open>
  \<open>strings.ToLower\<close> on the ASCII letters; other bytes are kept. On a string of ASCII
  bytes this is what Go computes; Go also lowers letters outside ASCII, which the model
  leaves as they are.
\<close>

definition lower_char :: "char \<Rightarrow> char" where
  "lower_char c =
     (if 65 \<le> (of_char c :: nat) \<and> (of_char c :: nat) \<le> 90
      then char_of ((of_char c :: nat) + 32) else c)"

definition strings_ToLower :: "string \<Rightarrow> string" where
  "strings_ToLower s = map lower_char s"

text \<open>\<open>strings.Split(s, "/")\<close>, for a one-character separator: never the empty list.\<close>

fun strings_Split :: "string \<Rightarrow> char \<Rightarrow> string list" where
  "strings_Split [] sep = [[]]"
| "strings_Split (c # s) sep =
     (if c = sep then [] # strings_Split s sep
      else (case strings_Split s sep of
              [] \<Rightarrow> [[c]]
            | t # ts \<Rightarrow> (c # t) # ts))"

fun strings_Join :: "string list \<Rightarrow> string \<Rightarrow> string" where
  "strings_Join [] sep = []"
| "strings_Join [e] sep = e"
| "strings_Join (e # es) sep = e @ sep @ strings_Join es sep"

text \<open>
  \<open>path.Clean\<close>, element by element: empty and \<open>.\<close> elements are dropped, \<open>..\<close> removes
  the element before it, is dropped at the root, and is kept at the start of a relative
  path. \<open>out\<close> holds the elements kept so far, last one first.
\<close>

fun clean_elems :: "bool \<Rightarrow> string list \<Rightarrow> string list \<Rightarrow> string list" where
  "clean_elems rooted out [] = rev out"
| "clean_elems rooted out (e # es) =
     (if e = [] \<or> e = ''.'' then clean_elems rooted out es
      else if e = ''..'' then
        (case out of
           [] \<Rightarrow> if rooted then clean_elems rooted [] es else clean_elems rooted [e] es
         | x # xs \<Rightarrow>
             if x = ''..'' then clean_elems rooted (e # out) es
             else clean_elems rooted xs es)
      else clean_elems rooted (e # out) es)"

definition path_Clean :: "string \<Rightarrow> string" where
  "path_Clean p =
     (if p = [] then ''.''
      else
        (let rooted = (hd p = CHR ''/'');
             out = strings_Join (clean_elems rooted [] (strings_Split p (CHR ''/''))) ''/''
         in if rooted then CHR ''/'' # out
            else if out = [] then ''.'' else out))"

text \<open>\<open>path.Join\<close>: joins from the first non-empty element on, then cleans.\<close>

definition path_Join :: "string list \<Rightarrow> string" where
  "path_Join elem =
     (case dropWhile (\<lambda>e. e = []) elem of
        [] \<Rightarrow> []
      | es \<Rightarrow> path_Clean (strings_Join es ''/''))"

text \<open>\<open>filepath.Base\<close> where the separator is \<open>/\<close> (every target except Windows).\<close>

definition filepath_Base :: "string \<Rightarrow> string" where
  "filepath_Base p =
     (if p = [] then ''.''
      else
        (let q = rev (dropWhile (\<lambda>c. c = CHR ''/'') (rev p));
             b = rev (takeWhile (\<lambda>c. c \<noteq> CHR ''/'') (rev q))
         in if b = [] then ''/'' else b))"

text \<open>\<open>filepath.FromSlash\<close>: on Windows every \<open>/\<close> becomes a backslash.\<close>

definition filepath_FromSlash :: "string \<Rightarrow> string \<Rightarrow> string" where
  "filepath_FromSlash goos p =
     (if goos = ''windows'' then map (\<lambda>c. if c = CHR ''/'' then CHR 0x5C else c) p else p)"

text \<open>\<open>%v\<close> of a non-negative \<open>int\<close>.\<close>

fun itoa :: "nat \<Rightarrow> string" where
  "itoa n =
     (if n < 10 then [char_of (48 + n)]
      else itoa (n div 10) @ [char_of (48 + n mod 10)])"

declare itoa.simps [simp del]

section \<open>The host: file system, environment, external processes, network\<close>

text \<open>
  What a reader delivers: the bytes, then \<open>io.EOF\<close> (\<open>None\<close>) or a read error.
\<close>

datatype stream = Stream string "error option"

text \<open>
  An entry of a zip archive (\<open>zip.File\<close>): its name, the permission bits of its mode, and
  what \<open>Open()\<close> gives: an error, or a reader over the archive file, which stays open. The
  reader reads the entry's bytes from that file only when it is read from, so what it
  delivers depends on the contents the archive file has at that time.
\<close>

type_synonym reader = "string \<Rightarrow> stream"

record zip_File =
  Name :: string
  Mode :: nat
  Open :: "error + reader"

datatype oflag = O_WRONLY | O_RDWR | O_CREATE | O_TRUNC

text \<open>The calls the program makes on the host, in the order it makes them.\<close>

datatype call =
    Exec "string list"                   \<comment> \<open>\<open>exec.Command(name, arg...).Run()\<close>\<close>
  | HttpGet string                       \<comment> \<open>\<open>http.Get(url)\<close>\<close>
  | MkdirAll string nat                  \<comment> \<open>\<open>os.MkdirAll(path, perm)\<close>\<close>
  | OpenFile string "oflag list" nat     \<comment> \<open>\<open>os.OpenFile(name, flag, perm)\<close>\<close>
  | Write string string                  \<comment> \<open>bytes copied into the open file \<open>name\<close>\<close>
  | ReadFile string                      \<comment> \<open>\<open>ioutil.ReadFile(name)\<close>\<close>
  | WriteFile string string nat          \<comment> \<open>\<open>ioutil.WriteFile(name, data, perm)\<close>\<close>
  | Chmod string nat                     \<comment> \<open>\<open>os.Chmod(name, mode)\<close>\<close>

text \<open>
  The host as the program sees it. \<open>files\<close> maps the path of every existing file to its
  contents and \<open>modes\<close> to its permission bits; \<open>umask\<close> is the file mode creation mask of the
  process; \<open>calls\<close> records the calls made so far. The remaining fields say how the host
  answers: they are inputs of the model, one for every call that can fail.
\<close>

record world =
  GOOS :: string
  GOARCH :: string
  files :: "string \<rightharpoonup> string"
  modes :: "string \<rightharpoonup> nat"
  umask :: nat
  PATH :: string                                  \<comment> \<open>\<open>os.Getenv("PATH")\<close>\<close>
  user_Current :: "error + string"                \<comment> \<open>\<open>user.Current()\<close>: error or \<open>HomeDir\<close>\<close>
  cmd_Run :: "string list \<Rightarrow> error option"         \<comment> \<open>result of running a command line\<close>
  http_Get :: "string \<Rightarrow> error + stream"           \<comment> \<open>error or the response body\<close>
  zip_Decode :: "string \<Rightarrow> error + zip_File list"  \<comment> \<open>the archive held by these bytes\<close>
  write_err :: "string \<Rightarrow> error option"           \<comment> \<open>why this path cannot be written, if so\<close>
  read_err :: "string \<Rightarrow> error option"            \<comment> \<open>why this file cannot be read, if so\<close>
  calls :: "call list"

definition called :: "call \<Rightarrow> world \<Rightarrow> world" where
  "called c w = w\<lparr>calls := calls w @ [c]\<rparr>"

text \<open>
  \<open>os.Stat\<close>, its error only: \<open>nil\<close> for an existing file, \<open>ENOENT\<close> otherwise. (The system
  call behind it never fails with \<open>EEXIST\<close> or \<open>ENOTEMPTY\<close>.)
\<close>

definition os_Stat :: "string \<Rightarrow> world \<Rightarrow> error option" where
  "os_Stat name w =
     (case files w name of
        Some d \<Rightarrow> None
      | None \<Rightarrow> Some (SysError ENOENT (''stat '' @ name @ '': no such file or directory'')))"

definition os_MkdirAll :: "string \<Rightarrow> nat \<Rightarrow> world \<Rightarrow> error option \<times> world" where
  "os_MkdirAll p perm w = (write_err w p, called (MkdirAll p perm) w)"

text \<open>The mode a file created with permission \<open>perm\<close> gets: the bits of the umask are cleared.\<close>

definition create_mode :: "nat \<Rightarrow> world \<Rightarrow> nat" where
  "create_mode perm w = perm - (perm AND umask w)"

text \<open>
  The modes after a file is created or opened with \<open>O_CREATE\<close>: the permission applies only
  when the file is new; an existing file keeps its mode.
\<close>

definition opened_modes :: "string \<Rightarrow> nat \<Rightarrow> world \<Rightarrow> (string \<rightharpoonup> nat)" where
  "opened_modes name perm w =
     (case files w name of
        None \<Rightarrow> (modes w)(name \<mapsto> create_mode perm w)
      | Some old \<Rightarrow> modes w)"

text \<open>
  \<open>os.OpenFile\<close> with \<open>O_CREATE\<close> and \<open>O_TRUNC\<close>: on success the file exists and is empty.
\<close>

definition os_OpenFile :: "string \<Rightarrow> oflag list \<Rightarrow> nat \<Rightarrow> world \<Rightarrow> error option \<times> world" where
  "os_OpenFile name flag perm w =
     (case write_err w name of
        Some e \<Rightarrow> (Some e, called (OpenFile name flag perm) w)
      | None \<Rightarrow>
          (None, (called (OpenFile name flag perm) w)
                   \<lparr>files := (files w)(name \<mapsto> []), modes := opened_modes name perm w\<rparr>))"

text \<open>\<open>os.Create(name)\<close> is \<open>OpenFile(name, O_RDWR|O_CREATE|O_TRUNC, 0666)\<close>.\<close>

definition os_Create :: "string \<Rightarrow> world \<Rightarrow> error option \<times> world" where
  "os_Create name w = os_OpenFile name [O_RDWR, O_CREATE, O_TRUNC] 438 w"

text \<open>
  \<open>io.Copy\<close> into the open file \<open>name\<close>: the bytes read are appended, and the reader's
  error, if any, is returned.
\<close>

fun io_Copy :: "string \<Rightarrow> stream \<Rightarrow> world \<Rightarrow> error option \<times> world" where
  "io_Copy name (Stream d err) w =
     (err, (called (Write name d) w)
             \<lparr>files := (files w)(name \<mapsto> (case files w name of None \<Rightarrow> d | Some old \<Rightarrow> old @ d))\<rparr>)"

text \<open>
  \<open>ioutil.ReadFile\<close>: \<open>ENOENT\<close> for a missing file; an existing file may still not be readable
  (no permission, a directory on the way that is none).
\<close>

definition ioutil_ReadFile :: "string \<Rightarrow> world \<Rightarrow> (error + string) \<times> world" where
  "ioutil_ReadFile name w =
     (case files w name of
        None \<Rightarrow> (Inl (SysError ENOENT (''open '' @ name @ '': no such file or directory'')),
                 called (ReadFile name) w)
      | Some d \<Rightarrow>
          (case read_err w name of
             Some e \<Rightarrow> (Inl e, called (ReadFile name) w)
           | None \<Rightarrow> (Inr d, called (ReadFile name) w)))"

definition ioutil_WriteFile :: "string \<Rightarrow> string \<Rightarrow> nat \<Rightarrow> world \<Rightarrow> error option \<times> world" where
  "ioutil_WriteFile name d perm w =
     (case write_err w name of
        Some e \<Rightarrow> (Some e, called (WriteFile name d perm) w)
      | None \<Rightarrow>
          (None, (called (WriteFile name d perm) w)
                   \<lparr>files := (files w)(name \<mapsto> d), modes := opened_modes name perm w\<rparr>))"

definition os_Chmod :: "string \<Rightarrow> nat \<Rightarrow> world \<Rightarrow> error option \<times> world" where
  "os_Chmod name mode w =
     (case files w name of
        None \<Rightarrow> (Some (SysError ENOENT (''chmod '' @ name @ '': no such file or directory'')),
                 called (Chmod name mode) w)
      | Some d \<Rightarrow>
          (case write_err w name of
             Some e \<Rightarrow> (Some e, called (Chmod name mode) w)
           | None \<Rightarrow> (None, (called (Chmod name mode) w)\<lparr>modes := (modes w)(name \<mapsto> mode)\<rparr>)))"

text \<open>
  \<open>zip.OpenReader\<close>: the file must exist and hold an archive. The directory of the archive
  is read at once; the entries' bytes are not.
\<close>

definition zip_OpenReader :: "string \<Rightarrow> world \<Rightarrow> error + zip_File list" where
  "zip_OpenReader name w =
     (case files w name of
        None \<Rightarrow> Inl (SysError ENOENT (''open '' @ name @ '': no such file or directory''))
      | Some d \<Rightarrow> zip_Decode w d)"

section \<open>Package standalone\<close>

text \<open>
  Every function that acts on the host takes the host and returns it with its result.
  The deferred \<open>Close()\<close> calls on files, streams and the response body change nothing the
  model records and are left out, as are the status lines printed on the terminal.
\<close>

definition baseDownloadURL :: string where
  "baseDownloadURL = ''https://actionsreleases.blob.core.windows.net/release''"

definition actionsImageURL :: string where
  "actionsImageURL = ''actionscore.azurecr.io/actions''"

definition runCmd :: "string list \<Rightarrow> world \<Rightarrow> error option \<times> world" where
  "runCmd cmd w =
     (case cmd_Run w cmd of
        Some err \<Rightarrow> (Some err, called (Exec cmd) w)
      | None \<Rightarrow> (None, called (Exec cmd) w))"

fun parseDockerError :: "string \<Rightarrow> error \<Rightarrow> error" where
  "parseDockerError component (ExitError exitCode m) =
     (if exitCode = 125
      then ErrorString (''Failed to launch '' @ component @ ''. Is it already running?'')
      else if exitCode = 127
      then ErrorString (''Failed to launch '' @ component
                          @ ''. Make sure Docker is installed and running'')
      else ExitError exitCode m)"
| "parseDockerError component err = err"

fun isContainerRunError :: "error \<Rightarrow> bool" where
  "isContainerRunError (ExitError exitCode m) = (exitCode = 125)"
| "isContainerRunError err = False"

text \<open>
  A setup task, given the directory and the version, acts on the host and sends one value
  on \<open>errorChan\<close>: that value is the first component of the result. Its deferred
  \<open>wg.Done()\<close> belongs to the scheduling of the goroutines, modelled with \<open>Init\<close>.
\<close>

type_synonym goroutine = "world \<Rightarrow> error option \<times> world"

definition redisCmd :: "string list" where
  "redisCmd = [''docker'', ''run'', ''--restart'', ''always'', ''-d'', ''-p'', ''6379:6379'', ''redis'']"

definition runRedis :: "string \<Rightarrow> string \<Rightarrow> goroutine" where
  "runRedis dir version w =
     (case runCmd redisCmd w of
        (Some err, w1) \<Rightarrow>
          if \<not> isContainerRunError err
          then (Some (parseDockerError ''Redis state store'' err), w1)
          else (None, w1)
      | (None, w1) \<Rightarrow> (None, w1))"

definition placementCmd :: "string \<Rightarrow> string \<Rightarrow> string list" where
  "placementCmd goos version =
     (let osPort = (if goos = ''windows'' then 6050 else 50005);
          image = actionsImageURL @ '':'' @ version
      in [''docker'', ''run'', ''--restart'', ''always'', ''-d'', ''-p'', itoa osPort @ '':50005'',
          ''--entrypoint'', ''./placement'', image])"

definition runPlacementService :: "string \<Rightarrow> string \<Rightarrow> goroutine" where
  "runPlacementService dir version w =
     (case runCmd (placementCmd (GOOS w) version) w of
        (Some err, w1) \<Rightarrow>
          if \<not> isContainerRunError err
          then (Some (parseDockerError ''placement service'' err), w1)
          else (None, w1)
      | (None, w1) \<Rightarrow> (None, w1))"

definition getActionsDir :: "world \<Rightarrow> (error + string) \<times> world" where
  "getActionsDir w =
     (case (if GOOS w = ''windows'' then Inr (filepath_FromSlash (GOOS w) ''c:/actions'')
            else (case user_Current w of
                    Inl err \<Rightarrow> Inl err
                  | Inr homeDir \<Rightarrow> Inr (path_Join [homeDir, ''.actions'']))) of
        Inl err \<Rightarrow> (Inl err, w)
      | Inr p \<Rightarrow>
          (case os_MkdirAll p 448 w of
             (Some err, w1) \<Rightarrow> (Inl err, w1)
           | (None, w1) \<Rightarrow> (Inr p, w1)))"

definition makeExecutable :: "string \<Rightarrow> world \<Rightarrow> error option \<times> world" where
  "makeExecutable filepath w =
     (if GOOS w \<noteq> ''windows'' then
        (case os_Chmod filepath 511 w of
           (Some err, w1) \<Rightarrow> (Some err, w1)
         | (None, w1) \<Rightarrow> (None, w1))
      else (None, w))"

text \<open>The bytes the file \<open>name\<close> holds now.\<close>

definition file_bytes :: "string \<Rightarrow> world \<Rightarrow> string" where
  "file_bytes name w = (case files w name of None \<Rightarrow> [] | Some d \<Rightarrow> d)"

text \<open>
  The body of the loop over the entries of the archive returns on every path, so the
  loop never reaches a second entry; with no entry the function falls through to
  \<open>return "", nil\<close>. A returned error stands for the pair of \<open>""\<close> and that error.

  \<open>io.Copy\<close> reads the entry from the archive \<open>filepath\<close> after the destination has been
  opened with \<open>O_TRUNC\<close>: when the destination is the archive itself, the entry is read
  from the emptied file.
\<close>

fun extractFile_range ::
  "string \<Rightarrow> string \<Rightarrow> zip_File list \<Rightarrow> world \<Rightarrow> (error + string) \<times> world" where
  "extractFile_range filepath targetDir [] w = (Inr [], w)"
| "extractFile_range filepath targetDir (file # rest) w =
     (case Open file of
        Inl err \<Rightarrow> (Inl err, w)
      | Inr zippedFile \<Rightarrow>
          (let extractedFilePath = path_Join [targetDir, Name file]
           in case os_OpenFile extractedFilePath [O_WRONLY, O_CREATE, O_TRUNC] (Mode file) w of
                (Some err, w1) \<Rightarrow> (Inl err, w1)
              | (None, w1) \<Rightarrow>
                  (case io_Copy extractedFilePath (zippedFile (file_bytes filepath w1)) w1 of
                     (Some err, w2) \<Rightarrow> (Inl err, w2)
                   | (None, w2) \<Rightarrow> (Inr extractedFilePath, w2))))"

definition extractFile :: "string \<Rightarrow> string \<Rightarrow> world \<Rightarrow> (error + string) \<times> world" where
  "extractFile filepath targetDir w =
     (case zip_OpenReader filepath w of
        Inl err \<Rightarrow> (Inl err, w)
      | Inr zipFiles \<Rightarrow> extractFile_range filepath targetDir zipFiles w)"

definition winActionsDir :: string where
  "winActionsDir = ''c:'' @ [CHR 0x5C] @ ''actions''"

definition winActionsExe :: string where
  "winActionsExe = ''c:'' @ [CHR 0x5C] @ ''actions'' @ [CHR 0x5C] @ ''actionsrt.exe''"

text \<open>
  On Windows the base name of \<open>filepath\<close> is computed and not used; the model computes it
  where it is used.
\<close>

definition moveFileToPath :: "string \<Rightarrow> world \<Rightarrow> (error + string) \<times> world" where
  "moveFileToPath filepath w =
     (if GOOS w = ''windows'' then
        (let p = PATH w
         in if \<not> strings_Contains (strings_ToLower p) (strings_ToLower winActionsDir) then
              (case runCmd [''SETX'', ''PATH'', p @ '';'' @ winActionsDir] w of
                 (Some err, w1) \<Rightarrow> (Inl err, w1)
               | (None, w1) \<Rightarrow> (Inr winActionsExe, w1))
            else (Inr winActionsExe, w))
      else
        (let fileName = filepath_Base filepath;
             destFilePath = path_Join [''/usr/local/bin'', fileName]
         in case ioutil_ReadFile filepath w of
              (Inl err, w1) \<Rightarrow> (Inl err, w1)
            | (Inr input, w1) \<Rightarrow>
                (case ioutil_WriteFile destFilePath input 420 w1 of
                   (Some err, w2) \<Rightarrow> (Inl err, w2)
                 | (None, w2) \<Rightarrow> (Inr destFilePath, w2))))"

definition net_http_Get :: "string \<Rightarrow> world \<Rightarrow> (error + stream) \<times> world" where
  "net_http_Get url w = (http_Get w url, called (HttpGet url) w)"

definition downloadFile :: "string \<Rightarrow> string \<Rightarrow> world \<Rightarrow> (error + string) \<times> world" where
  "downloadFile dir url w =
     (let tokens = strings_Split url (CHR ''/'');
          fileName = last tokens;
          filepath = path_Join [dir, fileName];
          err = os_Stat filepath w
      in if os_IsExist err then (Inr [], w)
         else
           (case net_http_Get url w of
              (Inl err, w1) \<Rightarrow> (Inl err, w1)
            | (Inr body, w1) \<Rightarrow>
                (case os_Create filepath w1 of
                   (Some err, w2) \<Rightarrow> (Inl err, w2)
                 | (None, w2) \<Rightarrow>
                     (case io_Copy filepath body w2 of
                        (Some err, w3) \<Rightarrow> (Inl err, w3)
                      | (None, w3) \<Rightarrow> (Inr filepath, w3)))))"

definition actionsURL :: "string \<Rightarrow> world \<Rightarrow> string" where
  "actionsURL version w =
     baseDownloadURL @ ''/'' @ version @ ''/actionsrt_'' @ GOOS w @ ''_'' @ GOARCH w @ ''.zip''"

definition installActionsBinary :: "string \<Rightarrow> string \<Rightarrow> goroutine" where
  "installActionsBinary dir version w =
     (case downloadFile dir (actionsURL version w) w of
        (Inl err, w1) \<Rightarrow>
          (Some (ErrorString (''Error downloading actions binary: '' @ Error err)), w1)
      | (Inr filepath, w1) \<Rightarrow>
          (case extractFile filepath dir w1 of
             (Inl err, w2) \<Rightarrow>
               (Some (ErrorString (''Error extracting actions binary: '' @ Error err)), w2)
           | (Inr extractedFilePath, w2) \<Rightarrow>
               (case moveFileToPath extractedFilePath w2 of
                  (Inl err, w3) \<Rightarrow>
                    (Some (ErrorString (''Error moving actions binary to path: '' @ Error err)), w3)
                | (Inr actionsPath, w3) \<Rightarrow>
                    (case makeExecutable actionsPath w3 of
                       (Some err, w4) \<Rightarrow>
                         (Some (ErrorString (''Error making actions binary executable: ''
                                               @ Error err)), w4)
                     | (None, w4) \<Rightarrow> (None, w4)))))"

section \<open>Init: the goroutines and the channel\<close>

text \<open>
  \<open>Init\<close> starts one goroutine for each setup task and one that waits for the wait group
  and closes \<open>errorChan\<close>, then ranges over the channel. The channel is unbuffered
  (\<open>make(chan error)\<close>): a send completes only together with a receive.

  The body of a task, up to its send, is taken as one step: the three bodies act on
  different parts of the host, and no property below depends on how they interleave.

  A task goroutine is \<open>Running\<close> its body, then \<open>Sending\<close> the value it computed (blocked
  in \<open>errorChan <- v\<close> until the value is received), then has \<open>Sent\<close> it and is about to
  run its deferred \<open>wg.Done()\<close>, then is \<open>Finished\<close>.
\<close>

datatype task_pc = Running goroutine | Sending "error option" | Sent | Finished

datatype closer_pc = Unspawned | Waiting | ClosedChan

text \<open>\<open>Init\<close> is in its range loop, or has returned the given error (\<open>None\<close> for \<open>nil\<close>).\<close>

datatype main_pc = Draining | Returned "error option"

record state =
  tasks :: "task_pc list"
  wg :: int                                  \<comment> \<open>the counter of the \<open>sync.WaitGroup\<close>\<close>
  closer :: closer_pc                        \<comment> \<open>\<open>wg.Wait(); close(errorChan)\<close>\<close>
  main :: main_pc                            \<comment> \<open>\<open>Init\<close> itself, in or after its range loop\<close>
  recvd :: "(nat \<times> error option) list"       \<comment> \<open>values read from \<open>errorChan\<close>, with their senders\<close>
  spinning :: bool                           \<comment> \<open>the spinner is started and not stopped\<close>
  host :: world

text \<open>
  One step of one goroutine. \<open>Run i\<close>: task \<open>i\<close> runs its body up to the send. \<open>Recv i\<close>:
  the range loop receives the value task \<open>i\<close> is sending, and returns it if it is not
  \<open>nil\<close>. \<open>Done i\<close>: task \<open>i\<close> returns from the send and its deferred \<open>wg.Done()\<close> runs.
  \<open>Close\<close>: \<open>wg.Wait()\<close> returns, which needs the counter at zero, and the channel is
  closed. \<open>EndRange\<close>: the range loop sees the closed channel and \<open>Init\<close> returns \<open>nil\<close>.
  The result is \<open>None\<close> when the step is not possible in the state.
\<close>

datatype event = Run nat | Recv nat | Done nat | Close | EndRange

fun step :: "event \<Rightarrow> state \<Rightarrow> state option" where
  "step (Run i) s =
     (if i < length (tasks s) then
        (case tasks s ! i of
           Running body \<Rightarrow>
             (case body (host s) of
                (err, w') \<Rightarrow> Some (s\<lparr>tasks := (tasks s)[i := Sending err], host := w'\<rparr>))
         | _ \<Rightarrow> None)
      else None)"
| "step (Recv i) s =
     (if i < length (tasks s) \<and> main s = Draining then
        (case tasks s ! i of
           Sending err \<Rightarrow>
             (case err of
                None \<Rightarrow> Some (s\<lparr>tasks := (tasks s)[i := Sent], recvd := recvd s @ [(i, err)]\<rparr>)
              | Some e \<Rightarrow>
                  Some (s\<lparr>tasks := (tasks s)[i := Sent], recvd := recvd s @ [(i, err)],
                          spinning := False, main := Returned (Some e)\<rparr>))
         | _ \<Rightarrow> None)
      else None)"
| "step (Done i) s =
     (if i < length (tasks s) then
        (case tasks s ! i of
           Sent \<Rightarrow> Some (s\<lparr>tasks := (tasks s)[i := Finished], wg := wg s - 1\<rparr>)
         | _ \<Rightarrow> None)
      else None)"
| "step Close s =
     (if closer s = Waiting \<and> wg s = 0 then Some (s\<lparr>closer := ClosedChan\<rparr>) else None)"
| "step EndRange s =
     (if main s = Draining \<and> closer s = ClosedChan
      then Some (s\<lparr>spinning := False, main := Returned None\<rparr>)
      else None)"

fun exec :: "event list \<Rightarrow> state \<Rightarrow> state option" where
  "exec [] s = Some s"
| "exec (ev # evs) s = (case step ev s of None \<Rightarrow> None | Some s' \<Rightarrow> exec evs s')"

definition initSteps :: "(string \<Rightarrow> string \<Rightarrow> goroutine) list" where
  "initSteps = [installActionsBinary, runPlacementService, runRedis]"

text \<open>
  \<open>Init\<close> up to its range loop. When \<open>getActionsDir\<close> fails, \<open>Init\<close> has returned that
  error and no goroutine exists.
\<close>

definition Init_begin :: "string \<Rightarrow> world \<Rightarrow> state" where
  "Init_begin runtimeVersion w =
     (case getActionsDir w of
        (Inl err, w1) \<Rightarrow>
          \<lparr>tasks = [], wg = 0, closer = Unspawned, main = Returned (Some err), recvd = [],
           spinning = False, host = w1\<rparr>
      | (Inr dir, w1) \<Rightarrow>
          \<lparr>tasks = map (\<lambda>step. Running (step dir runtimeVersion)) initSteps,
           wg = int (length initSteps), closer = Waiting, main = Draining, recvd = [],
           spinning = (GOOS w1 \<noteq> ''windows''), host = w1\<rparr>)"

text \<open>The state \<open>Init\<close> and its goroutines are in after the steps \<open>evs\<close>, if they can be taken.\<close>

definition Init :: "string \<Rightarrow> world \<Rightarrow> event list \<Rightarrow> state option" where
  "Init runtimeVersion w evs = exec evs (Init_begin runtimeVersion w)"

subsection \<open>Measures and the invariant of the goroutines\<close>

text \<open>A task that has not yet run \<open>wg.Done()\<close> counts one in the wait group.\<close>

fun pending :: "task_pc \<Rightarrow> nat" where
  "pending Finished = 0"
| "pending t = 1"

text \<open>A task has delivered once its send has completed.\<close>

fun delivered :: "task_pc \<Rightarrow> bool" where
  "delivered Sent = True"
| "delivered Finished = True"
| "delivered t = False"

text \<open>The steps a task still has before it is \<open>Finished\<close>.\<close>

fun rank :: "task_pc \<Rightarrow> nat" where
  "rank (Running body) = 3"
| "rank (Sending err) = 2"
| "rank Sent = 1"
| "rank Finished = 0"

definition potential :: "state \<Rightarrow> nat" where
  "potential s =
     sum_list (map rank (tasks s)) + (if closer s = Waiting then 1 else 0)
       + (if main s = Draining then 1 else 0)"

text \<open>The first value read from the channel that is not \<open>nil\<close>.\<close>

fun first_error :: "(nat \<times> error option) list \<Rightarrow> error option" where
  "first_error [] = None"
| "first_error ((i, None) # vs) = first_error vs"
| "first_error ((i, Some e) # vs) = Some e"

definition all_nil :: "(nat \<times> error option) list \<Rightarrow> bool" where
  "all_nil vs = list_all (\<lambda>v. snd v = None) vs"

text \<open>
  What \<open>Init\<close> has read so far, against where it stands: while it drains, and when it
  returns \<open>nil\<close> (which needs the closed channel), every value read was \<open>nil\<close>; when it
  returns an error, that error is the last value read and every value before it was \<open>nil\<close>.
\<close>

definition main_consistent :: "state \<Rightarrow> bool" where
  "main_consistent s =
     (case main s of
        Draining \<Rightarrow> all_nil (recvd s)
      | Returned None \<Rightarrow> closer s = ClosedChan \<and> all_nil (recvd s)
      | Returned (Some e) \<Rightarrow> (\<exists>pre j. recvd s = pre @ [(j, Some e)] \<and> all_nil pre))"

text \<open>
  The invariant of the states reached after the goroutines are started: the counter of
  the wait group is the number of tasks that have not called \<open>wg.Done()\<close>; the channel is
  closed only with the counter at zero; the values read came from different tasks, which
  are exactly the tasks whose send has completed.
\<close>

definition inv :: "state \<Rightarrow> bool" where
  "inv s =
     (wg s = int (sum_list (map pending (tasks s))) \<and>
      closer s \<noteq> Unspawned \<and>
      (closer s = ClosedChan \<longrightarrow> wg s = 0) \<and>
      distinct (map fst (recvd s)) \<and>
      set (map fst (recvd s)) = {i. i < length (tasks s) \<and> delivered (tasks s ! i)} \<and>
      main_consistent s)"

section \<open>Example hosts and runs\<close>

text \<open>Concrete hosts on which the theorems below are instantiated.\<close>

definition example_host :: "string \<Rightarrow> string \<Rightarrow> error option \<Rightarrow> zip_File list \<Rightarrow> world" where
  "example_host goos path docker entries =
     \<lparr>GOOS = goos, GOARCH = ''amd64'', files = Map.empty, modes = Map.empty, umask = 18,
      PATH = path, user_Current = Inr ''/home/u'', cmd_Run = (\<lambda>cmd. docker),
      http_Get = (\<lambda>url. Inr (Stream ''PK'' None)), zip_Decode = (\<lambda>d. Inr entries),
      write_err = (\<lambda>p. None), read_err = (\<lambda>p. None), calls = []\<rparr>"

definition linux_host :: "error option \<Rightarrow> world" where
  "linux_host docker = example_host ''linux'' ''/usr/bin'' docker []"

text \<open>
  An entry of the archive whose bytes are \<open>PK\<close>: read from that archive it delivers its
  contents, read from a file with other bytes it fails as a truncated archive does.
\<close>

definition entry_reader :: "string \<Rightarrow> reader" where
  "entry_reader d b =
     (if b = ''PK'' then Stream d None else Stream [] (Some (ErrorString ''unexpected EOF'')))"

definition entry :: "string \<Rightarrow> nat \<Rightarrow> string \<Rightarrow> zip_File" where
  "entry name mode d = \<lparr>Name = name, Mode = mode, Open = Inr (entry_reader d)\<rparr>"

definition two_entries :: "zip_File list" where
  "two_entries = [entry ''actionsrt'' 493 ''ELF'', entry ''README'' 420 ''text'']"

definition archive_host :: "zip_File list \<Rightarrow> world" where
  "archive_host entries =
     (example_host ''linux'' ''/usr/bin'' None entries)
       \<lparr>files := [''/d/a.zip'' \<mapsto> ''old''], modes := [''/d/a.zip'' \<mapsto> 420]\<rparr>"


definition windows_host :: world where
  "windows_host =
     example_host ''windows''
       (''C:'' @ [CHR 0x5C] @ ''Windows;C:'' @ [CHR 0x5C] @ ''Actions'') None two_entries"

definition failing_host :: world where
  "failing_host = linux_host (Some (ExitError 1 ''exit status 1''))"


definition redis_failed :: state where
  "redis_failed =
     \<lparr>tasks = [Running (installActionsBinary ''/home/u/.actions'' ''0.3.0''),
               Running (runPlacementService ''/home/u/.actions'' ''0.3.0''), Sent],
      wg = 3, closer = Waiting, main = Returned (Some (ExitError 1 ''exit status 1'')),
      recvd = [(2, Some (ExitError 1 ''exit status 1''))], spinning = False,
      host = called (Exec redisCmd) (called (MkdirAll ''/home/u/.actions'' 448) failing_host)\<rparr>"

definition placement_blocked :: state where
  "placement_blocked =
     redis_failed
       \<lparr>tasks := [Running (installActionsBinary ''/home/u/.actions'' ''0.3.0''),
                  Sending (Some (ExitError 1 ''exit status 1'')), Sent],
        host := called (Exec (placementCmd ''linux'' ''0.3.0'')) (host redis_failed)\<rparr>"


section \<open>Properties of the launcher tasks\<close>

lemma runCmd_fst: "fst (runCmd cmd w) = cmd_Run w cmd"
  by (simp add: runCmd_def split: option.splits)

lemma runRedis_result:
  "fst (runRedis dir version w) =
     (case cmd_Run w redisCmd of
        None \<Rightarrow> None
      | Some err \<Rightarrow> if isContainerRunError err then None
                    else Some (parseDockerError ''Redis state store'' err))"
  by (simp add: runRedis_def runCmd_def split: option.splits)

lemma runPlacementService_result:
  "fst (runPlacementService dir version w) =
     (case cmd_Run w (placementCmd (GOOS w) version) of
        None \<Rightarrow> None
      | Some err \<Rightarrow> if isContainerRunError err then None
                    else Some (parseDockerError ''placement service'' err))"
  by (simp add: runPlacementService_def runCmd_def split: option.splits)

text \<open>
  C3. A launcher task (\<open>runRedis\<close>, \<open>runPlacementService\<close>) whose \<open>docker run\<close> fails
  with exit status 125 sends \<open>nil\<close> on the channel: the failure is not reported.
\<close>

theorem launcher_exit_125_is_success:
  "(cmd_Run w redisCmd = Some (ExitError 125 m) \<longrightarrow> fst (runRedis dir version w) = None) \<and>
   (cmd_Run w (placementCmd (GOOS w) version) = Some (ExitError 125 m) \<longrightarrow>
      fst (runPlacementService dir version w) = None)"
  by (simp add: runRedis_result runPlacementService_result)

theorem launcher_exit_125_is_success_witness:
  "cmd_Run (linux_host (Some (ExitError 125 ''exit status 125''))) redisCmd
     = Some (ExitError 125 ''exit status 125'') \<and>
   cmd_Run (linux_host (Some (ExitError 125 ''exit status 125'')))
       (placementCmd (GOOS (linux_host (Some (ExitError 125 ''exit status 125'')))) ''0.3.0'')
     = Some (ExitError 125 ''exit status 125'') \<and>
   fst (runRedis ''/home/u/.actions'' ''0.3.0''
          (linux_host (Some (ExitError 125 ''exit status 125'')))) = None \<and>
   fst (runPlacementService ''/home/u/.actions'' ''0.3.0''
          (linux_host (Some (ExitError 125 ''exit status 125'')))) = None"
proof -
  have h: "cmd_Run (linux_host (Some (ExitError 125 ''exit status 125''))) c
             = Some (ExitError 125 ''exit status 125'')" for c
    by (simp add: linux_host_def example_host_def)
  show ?thesis
    using h launcher_exit_125_is_success
            [of "linux_host (Some (ExitError 125 ''exit status 125''))"
                "''exit status 125''" "''/home/u/.actions''" "''0.3.0''"]
    by simp
qed

lemma msg_125_neq_127:
  "''Failed to launch '' @ c @ ''. Is it already running?''
     \<noteq> ''Failed to launch '' @ c' @ ''. Make sure Docker is installed and running''"
proof
  assume "''Failed to launch '' @ c @ ''. Is it already running?''
     = ''Failed to launch '' @ c' @ ''. Make sure Docker is installed and running''"
  then have "last (''Failed to launch '' @ c @ ''. Is it already running?'')
     = last (''Failed to launch '' @ c' @ ''. Make sure Docker is installed and running'')"
    by (rule arg_cong)
  then show False by simp
qed

text \<open>
  C4. A launcher task whose \<open>docker run\<close> fails with exit status 127 reports the error
  "Failed to launch <component>. Make sure Docker is installed and running". That error
  differs from what \<open>parseDockerError\<close> gives for every other exit status, and its text
  differs from the text of the other "Failed to launch" message (the one for 125).
\<close>

theorem launcher_exit_127_distinct_error:
  "(cmd_Run w redisCmd = Some (ExitError 127 m) \<longrightarrow>
      fst (runRedis dir version w) =
        Some (ErrorString
          ''Failed to launch Redis state store. Make sure Docker is installed and running'')) \<and>
   (cmd_Run w (placementCmd (GOOS w) version) = Some (ExitError 127 m) \<longrightarrow>
      fst (runPlacementService dir version w) =
        Some (ErrorString
          ''Failed to launch placement service. Make sure Docker is installed and running'')) \<and>
   (\<forall>component component' code m'. code \<noteq> 127 \<longrightarrow>
      parseDockerError component (ExitError 127 m)
        \<noteq> parseDockerError component' (ExitError code m')) \<and>
   (\<forall>component component' m'.
      Error (parseDockerError component (ExitError 127 m))
        \<noteq> Error (parseDockerError component' (ExitError 125 m')))"
  using msg_125_neq_127 by (auto simp add: runRedis_result runPlacementService_result)

theorem launcher_exit_127_distinct_error_witness:
  "cmd_Run (linux_host (Some (ExitError 127 ''exit status 127''))) redisCmd
     = Some (ExitError 127 ''exit status 127'') \<and>
   fst (runRedis ''/home/u/.actions'' ''0.3.0''
          (linux_host (Some (ExitError 127 ''exit status 127''))))
     = Some (ErrorString
         ''Failed to launch Redis state store. Make sure Docker is installed and running'') \<and>
   fst (runPlacementService ''/home/u/.actions'' ''0.3.0''
          (linux_host (Some (ExitError 127 ''exit status 127''))))
     = Some (ErrorString
         ''Failed to launch placement service. Make sure Docker is installed and running'') \<and>
   (1::int) \<noteq> 127 \<and>
   parseDockerError ''Redis state store'' (ExitError 127 ''exit status 127'')
     \<noteq> parseDockerError ''Redis state store'' (ExitError 1 ''exit status 1'') \<and>
   Error (parseDockerError ''Redis state store'' (ExitError 127 ''exit status 127''))
     \<noteq> Error (parseDockerError ''Redis state store'' (ExitError 125 ''exit status 125''))"
proof -
  have h: "cmd_Run (linux_host (Some (ExitError 127 ''exit status 127''))) c
             = Some (ExitError 127 ''exit status 127'')" for c
    by (simp add: linux_host_def example_host_def)
  have d: "(1::int) \<noteq> 127" by simp
  show ?thesis
    using h d launcher_exit_127_distinct_error
            [of "linux_host (Some (ExitError 127 ''exit status 127''))"
                "''exit status 127''" "''/home/u/.actions''" "''0.3.0''"]
    by blast
qed

text \<open>
  C5, as the code has it. A failure of \<open>docker run\<close> that is neither exit status 125 nor
  exit status 127 (another exit status, or an error starting the process) is reported as
  the very error \<open>cmd.Run()\<close> returned: no text naming the component is put around it.
\<close>

theorem launcher_other_failure_unchanged:
  assumes "\<forall>m. err \<noteq> ExitError 125 m" and "\<forall>m. err \<noteq> ExitError 127 m"
  shows "(cmd_Run w redisCmd = Some err \<longrightarrow> fst (runRedis dir version w) = Some err) \<and>
         (cmd_Run w (placementCmd (GOOS w) version) = Some err \<longrightarrow>
            fst (runPlacementService dir version w) = Some err)"
  using assms by (cases err) (auto simp add: runRedis_result runPlacementService_result)

theorem launcher_other_failure_unchanged_witness:
  "(\<forall>m. ExitError 1 ''exit status 1'' \<noteq> ExitError 125 m) \<and>
   (\<forall>m. ExitError 1 ''exit status 1'' \<noteq> ExitError 127 m) \<and>
   cmd_Run (linux_host (Some (ExitError 1 ''exit status 1''))) redisCmd
     = Some (ExitError 1 ''exit status 1'') \<and>
   fst (runRedis ''/home/u/.actions'' ''0.3.0''
          (linux_host (Some (ExitError 1 ''exit status 1''))))
     = Some (ExitError 1 ''exit status 1'') \<and>
   fst (runPlacementService ''/home/u/.actions'' ''0.3.0''
          (linux_host (Some (ExitError 1 ''exit status 1''))))
     = Some (ExitError 1 ''exit status 1'')"
proof -
  have a: "\<forall>m. ExitError 1 ''exit status 1'' \<noteq> ExitError 125 m" by simp
  have b: "\<forall>m. ExitError 1 ''exit status 1'' \<noteq> ExitError 127 m" by simp
  have h: "cmd_Run (linux_host (Some (ExitError 1 ''exit status 1''))) c
             = Some (ExitError 1 ''exit status 1'')" for c
    by (simp add: linux_host_def example_host_def)
  show ?thesis
    using a b h launcher_other_failure_unchanged
            [OF a b, of "linux_host (Some (ExitError 1 ''exit status 1''))"
                "''/home/u/.actions''" "''0.3.0''"]
    by blast
qed

text \<open>
  C5 as stated fails: with exit status 1 the error \<open>runRedis\<close> reports reads
  "exit status 1", which does not name the component.
\<close>

theorem launcher_generic_failure_names_component_counterexample:
  "cmd_Run (linux_host (Some (ExitError 1 ''exit status 1''))) redisCmd
     = Some (ExitError 1 ''exit status 1'') \<and>
   fst (runRedis ''/home/u/.actions'' ''0.3.0'' (linux_host (Some (ExitError 1 ''exit status 1''))))
     = Some (ExitError 1 ''exit status 1'') \<and>
   \<not> strings_Contains (Error (ExitError 1 ''exit status 1'')) ''Redis state store''"
  by (simp add: runRedis_result linux_host_def example_host_def)

section \<open>Properties of the installer stages\<close>

lemma os_Stat_not_IsExist: "\<not> os_IsExist (os_Stat name w)"
  by (simp add: os_Stat_def split: option.splits)

lemma strings_Split_not_Nil: "strings_Split s sep \<noteq> []"
  by (induction s) (auto split: list.splits)

lemma strings_Contains_sublist: "strings_Contains s substr = sublist substr s"
  by (induction s) (auto simp: sublist_Cons_right)

lemma ToLower_append: "strings_ToLower (a @ b) = strings_ToLower a @ strings_ToLower b"
  by (simp add: strings_ToLower_def)

lemma ToLower_winActionsDir: "strings_ToLower winActionsDir = winActionsDir"
  by (simp add: strings_ToLower_def winActionsDir_def lower_char_def)

lemma io_Copy_unfold:
  "io_Copy name st w =
     (case st of Stream d err \<Rightarrow>
        (err, (called (Write name d) w)
                \<lparr>files := (files w)(name \<mapsto> (case files w name of None \<Rightarrow> d | Some old \<Rightarrow> old @ d))\<rparr>))"
  by (cases st) simp

lemma downloadFile_success:
  assumes "http_Get w url = Inr (Stream d None)"
    and "write_err w (path_Join [dir, last (strings_Split url (CHR ''/''))]) = None"
  shows "fst (downloadFile dir url w) = Inr (path_Join [dir, last (strings_Split url (CHR ''/''))])"
    and "files (snd (downloadFile dir url w)) (path_Join [dir, last (strings_Split url (CHR ''/''))])
           = Some d"
  using assms
  by (simp_all add: Let_def downloadFile_def os_Stat_not_IsExist net_http_Get_def os_Create_def
        os_OpenFile_def called_def io_Copy_unfold)

text \<open>
  C6. The test \<open>os.IsExist(err)\<close> after \<open>os.Stat\<close> is false whether or not the file exists,
  so \<open>downloadFile\<close> never returns early: it always calls \<open>http.Get(url)\<close>, and when the
  request and the opening of the destination succeed it writes the body to the
  destination and returns its path, also when the destination already exists.
\<close>

theorem downloadFile_always_fetches:
  "(let p = path_Join [dir, last (strings_Split url (CHR ''/''))]
    in \<not> os_IsExist (os_Stat p w) \<and>
       prefix (calls w @ [HttpGet url]) (calls (snd (downloadFile dir url w))) \<and>
       (http_Get w url = Inr (Stream d None) \<longrightarrow> write_err w p = None \<longrightarrow>
          fst (downloadFile dir url w) = Inr p \<and>
          files (snd (downloadFile dir url w)) p = Some d \<and>
          calls (snd (downloadFile dir url w))
            = calls w @ [HttpGet url, OpenFile p [O_RDWR, O_CREATE, O_TRUNC] 438, Write p d]))"
  by (auto simp add: Let_def downloadFile_def os_Stat_not_IsExist net_http_Get_def os_Create_def
        os_OpenFile_def called_def io_Copy_unfold
      split: sum.splits option.splits prod.splits stream.splits)

lemma path_Join_example:
  "path_Join [''/d'', last (strings_Split ''http://h/r/a.zip'' (CHR ''/''))] = ''/d/a.zip''"
  by (simp add: path_Join_def path_Clean_def)

theorem downloadFile_always_fetches_witness:
  "(let p = path_Join [''/d'', last (strings_Split ''http://h/r/a.zip'' (CHR ''/''))]
    in files (archive_host []) p = Some ''old'' \<and>
       http_Get (archive_host []) ''http://h/r/a.zip'' = Inr (Stream ''PK'' None) \<and>
       write_err (archive_host []) p = None \<and>
       fst (downloadFile ''/d'' ''http://h/r/a.zip'' (archive_host [])) = Inr p \<and>
       files (snd (downloadFile ''/d'' ''http://h/r/a.zip'' (archive_host []))) p = Some ''PK'')"
proof -
  have p: "path_Join [''/d'', last (strings_Split ''http://h/r/a.zip'' (CHR ''/''))] = ''/d/a.zip''"
    by (rule path_Join_example)
  have p': "path_Join [''/d'', ''a.zip''] = ''/d/a.zip''"
    by (simp add: path_Join_def path_Clean_def)
  have f: "files (archive_host []) ''/d/a.zip'' = Some ''old''"
    by (simp add: archive_host_def)
  have g: "http_Get (archive_host []) ''http://h/r/a.zip'' = Inr (Stream ''PK'' None)"
    by (simp add: archive_host_def example_host_def)
  have e: "write_err (archive_host []) ''/d/a.zip'' = None"
    by (simp add: archive_host_def example_host_def)
  show ?thesis
    using f g e downloadFile_always_fetches
                  [of "''/d''" "''http://h/r/a.zip''" "archive_host []" "''PK''"]
    by (simp add: Let_def p p')
qed

lemma extractFile_range_ignores_rest:
  "extractFile_range filepath targetDir (A # rest) w = extractFile_range filepath targetDir [A] w"
  by simp




text \<open>
  C8. On Windows, when \<open>PATH\<close> holds the text of \<open>winActionsDir\<close> in any mixture of upper and lower
  case,
  \<open>moveFileToPath\<close> returns the fixed destination and leaves the host as it is: \<open>SETX\<close> is
  not run.
\<close>

theorem moveFileToPath_windows_PATH_present:
  assumes "GOOS w = ''windows''"
    and "PATH w = pre @ mid @ post"
    and "strings_ToLower mid = winActionsDir"
  shows "moveFileToPath filepath w = (Inr winActionsExe, w)"
proof -
  have "strings_ToLower (PATH w) = strings_ToLower pre @ winActionsDir @ strings_ToLower post"
    using assms(2,3) by (simp add: ToLower_append)
  then have "strings_Contains (strings_ToLower (PATH w)) (strings_ToLower winActionsDir)"
    by (simp add: strings_Contains_sublist ToLower_winActionsDir)
  with assms(1) show ?thesis
    by (simp add: moveFileToPath_def Let_def)
qed

theorem moveFileToPath_windows_PATH_present_witness:
  "GOOS windows_host = ''windows'' \<and>
   PATH windows_host = (''C:'' @ [CHR 0x5C] @ ''Windows;'') @ (''C:'' @ [CHR 0x5C] @ ''Actions'') @ [] \<and>
   strings_ToLower (''C:'' @ [CHR 0x5C] @ ''Actions'') = winActionsDir \<and>
   moveFileToPath ''c:/actions/actionsrt.exe'' windows_host = (Inr winActionsExe, windows_host) \<and>
   calls windows_host = []"
proof -
  have a: "GOOS windows_host = ''windows''"
    by (simp add: windows_host_def example_host_def)
  have b: "PATH windows_host
             = (''C:'' @ [CHR 0x5C] @ ''Windows;'') @ (''C:'' @ [CHR 0x5C] @ ''Actions'') @ []"
    by (simp add: windows_host_def example_host_def)
  have c: "strings_ToLower (''C:'' @ [CHR 0x5C] @ ''Actions'') = winActionsDir"
    by code_simp
  have d: "calls windows_host = []"
    by (simp add: windows_host_def example_host_def)
  show ?thesis
    using a b c d moveFileToPath_windows_PATH_present [OF a b c, of "''c:/actions/actionsrt.exe''"]
    by simp
qed

text \<open>
  C10. For an archive without entries \<open>extractFile\<close> returns the empty path and no
  error, and \<open>installActionsBinary\<close> goes on to \<open>moveFileToPath\<close> with the empty path.
\<close>

theorem extractFile_empty_archive:
  "(zip_OpenReader filepath w = Inr [] \<longrightarrow> extractFile filepath targetDir w = (Inr [], w)) \<and>
   (downloadFile dir (actionsURL version w0) w0 = (Inr filepath, w) \<longrightarrow>
    zip_OpenReader filepath w = Inr [] \<longrightarrow>
      installActionsBinary dir version w0 =
        (case moveFileToPath [] w of
           (Inl err, w3) \<Rightarrow>
             (Some (ErrorString (''Error moving actions binary to path: '' @ Error err)), w3)
         | (Inr actionsPath, w3) \<Rightarrow>
             (case makeExecutable actionsPath w3 of
                (Some err, w4) \<Rightarrow>
                  (Some (ErrorString (''Error making actions binary executable: '' @ Error err)), w4)
              | (None, w4) \<Rightarrow> (None, w4))))"
  by (simp add: extractFile_def installActionsBinary_def)

lemma actionsURL_example:
  "last (strings_Split (actionsURL ''0.3.0'' (linux_host None)) (CHR ''/''))
     = ''actionsrt_linux_amd64.zip''"
  by (simp add: actionsURL_def baseDownloadURL_def linux_host_def example_host_def)

theorem extractFile_empty_archive_witness:
  "zip_OpenReader ''/d/a.zip'' (archive_host []) = Inr [] \<and>
   extractFile ''/d/a.zip'' ''/d'' (archive_host []) = (Inr [], archive_host []) \<and>
   fst (downloadFile ''/d'' (actionsURL ''0.3.0'' (linux_host None)) (linux_host None))
     = Inr ''/d/actionsrt_linux_amd64.zip'' \<and>
   zip_OpenReader ''/d/actionsrt_linux_amd64.zip''
     (snd (downloadFile ''/d'' (actionsURL ''0.3.0'' (linux_host None)) (linux_host None))) = Inr [] \<and>
   fst (installActionsBinary ''/d'' ''0.3.0'' (linux_host None))
     = Some (ErrorString
         ''Error moving actions binary to path: open : no such file or directory'')"
proof -
  let ?h = "linux_host None"
  let ?u = "actionsURL ''0.3.0'' ?h"
  let ?w = "snd (downloadFile ''/d'' ?u ?h)"
  have p: "path_Join [''/d'', ''actionsrt_linux_amd64.zip''] = ''/d/actionsrt_linux_amd64.zip''"
    by (simp add: path_Join_def path_Clean_def)
  have ge: "http_Get ?h ?u = Inr (Stream ''PK'' None)"
    by (simp add: linux_host_def example_host_def)
  have we: "write_err ?h ''/d/actionsrt_linux_amd64.zip'' = None"
    by (simp add: linux_host_def example_host_def)
  have dl: "fst (downloadFile ''/d'' ?u ?h) = Inr ''/d/actionsrt_linux_amd64.zip'' \<and>
            files ?w ''/d/actionsrt_linux_amd64.zip'' = Some ''PK''"
    using downloadFile_success [of ?h ?u "''PK''" "''/d''"] ge we
    by (simp add: actionsURL_example p)
  have h0: "zip_Decode ?h d = Inr []" "GOOS ?h = ''linux''" "files ?h [] = None" for d
    by (simp_all add: linux_host_def example_host_def)
  have zd: "zip_Decode ?w = zip_Decode ?h" and go: "GOOS ?w = ''linux''"
    and fe: "files ?w [] = None"
    by (simp_all add: downloadFile_def Let_def os_Stat_not_IsExist net_http_Get_def os_Create_def
          os_OpenFile_def called_def io_Copy_unfold ge we actionsURL_example p h0)
  have z: "zip_OpenReader ''/d/actionsrt_linux_amd64.zip'' ?w = Inr []"
    using dl by (simp add: zip_OpenReader_def zd h0)
  have z0: "zip_OpenReader ''/d/a.zip'' (archive_host []) = Inr []"
    by (simp add: zip_OpenReader_def archive_host_def example_host_def)
  have pr: "downloadFile ''/d'' ?u ?h = (Inr ''/d/actionsrt_linux_amd64.zip'', ?w)"
    using dl by (simp add: prod_eq_iff)
  have mv: "fst (moveFileToPath [] ?w)
              = Inl (SysError ENOENT ''open : no such file or directory'')"
    by (simp add: moveFileToPath_def go Let_def ioutil_ReadFile_def fe)
  have i1: "extractFile ''/d/a.zip'' ''/d'' (archive_host []) = (Inr [], archive_host [])"
    using extractFile_empty_archive [of "''/d/a.zip''" "archive_host []" "''/d''"] z0 by blast
  have i2: "installActionsBinary ''/d'' ''0.3.0'' ?h =
        (case moveFileToPath [] ?w of
           (Inl err, w3) \<Rightarrow>
             (Some (ErrorString (''Error moving actions binary to path: '' @ Error err)), w3)
         | (Inr actionsPath, w3) \<Rightarrow>
             (case makeExecutable actionsPath w3 of
                (Some err, w4) \<Rightarrow>
                  (Some (ErrorString (''Error making actions binary executable: '' @ Error err)), w4)
              | (None, w4) \<Rightarrow> (None, w4)))"
    using extractFile_empty_archive
            [of "''/d/actionsrt_linux_amd64.zip''" ?w "''/d''" "''/d''" "''0.3.0''" ?h] pr z
    by blast
  obtain w3 where m: "moveFileToPath [] ?w
                        = (Inl (SysError ENOENT ''open : no such file or directory''), w3)"
    using mv by (cases "moveFileToPath [] ?w") auto
  have i3: "fst (installActionsBinary ''/d'' ''0.3.0'' ?h)
     = Some (ErrorString
         ''Error moving actions binary to path: open : no such file or directory'')"
    unfolding i2 m by simp
  show ?thesis
    using z0 i1 dl z i3 by blast
qed

section \<open>Properties of Init\<close>

lemma sum_list_map_update:
  "i < length xs \<Longrightarrow>
     sum_list (map f (xs[i := y])) + f (xs ! i) = sum_list (map f xs) + (f y :: nat)"
  by (induction xs arbitrary: i) (auto split: nat.splits)

lemma step_cases [consumes 1, case_names Run RecvNil RecvErr Done Close EndRange]:
  assumes "step ev s = Some s'"
  obtains
    i body err w' where "ev = Run i" "i < length (tasks s)" "tasks s ! i = Running body"
      "body (host s) = (err, w')" "s' = s\<lparr>tasks := (tasks s)[i := Sending err], host := w'\<rparr>"
  | i where "ev = Recv i" "i < length (tasks s)" "main s = Draining" "tasks s ! i = Sending None"
      "s' = s\<lparr>tasks := (tasks s)[i := Sent], recvd := recvd s @ [(i, None)]\<rparr>"
  | i e where "ev = Recv i" "i < length (tasks s)" "main s = Draining"
      "tasks s ! i = Sending (Some e)"
      "s' = s\<lparr>tasks := (tasks s)[i := Sent], recvd := recvd s @ [(i, Some e)],
               spinning := False, main := Returned (Some e)\<rparr>"
  | i where "ev = Done i" "i < length (tasks s)" "tasks s ! i = Sent"
      "s' = s\<lparr>tasks := (tasks s)[i := Finished], wg := wg s - 1\<rparr>"
  | "ev = Close" "closer s = Waiting" "wg s = 0" "s' = s\<lparr>closer := ClosedChan\<rparr>"
  | "ev = EndRange" "main s = Draining" "closer s = ClosedChan"
      "s' = s\<lparr>spinning := False, main := Returned None\<rparr>"
  using assms
  by (cases ev) (auto split: if_splits task_pc.splits option.splits prod.splits)

lemma step_length: "step ev s = Some s' \<Longrightarrow> length (tasks s') = length (tasks s)"
  by (cases rule: step_cases) auto

lemma pending_zero_all_Finished:
  assumes "sum_list (map pending ts) = 0" and "i < length ts"
  shows "ts ! i = Finished"
proof -
  have "ts ! i \<in> set ts" using assms(2) by simp
  then have "pending (ts ! i) = 0" using assms(1) by simp
  then show ?thesis by (cases "ts ! i") auto
qed

lemma all_nil_append [simp]: "all_nil (xs @ ys) = (all_nil xs \<and> all_nil ys)"
  by (simp add: all_nil_def)

lemma all_nil_single [simp]: "all_nil [(i, v)] = (v = None)"
  by (simp add: all_nil_def)

lemma invI:
  assumes "wg s = int (sum_list (map pending (tasks s)))"
    and "closer s \<noteq> Unspawned"
    and "closer s = ClosedChan \<Longrightarrow> wg s = 0"
    and "distinct (map fst (recvd s))"
    and "set (map fst (recvd s)) = {i. i < length (tasks s) \<and> delivered (tasks s ! i)}"
    and "main_consistent s"
  shows "inv s"
  unfolding inv_def using assms by blast

lemma inv_wg: "inv s \<Longrightarrow> wg s = int (sum_list (map pending (tasks s)))"
  unfolding inv_def by blast

lemma inv_closer: "inv s \<Longrightarrow> closer s \<noteq> Unspawned"
  unfolding inv_def by blast

lemma inv_closed: "inv s \<Longrightarrow> closer s = ClosedChan \<Longrightarrow> wg s = 0"
  unfolding inv_def by blast

lemma inv_distinct: "inv s \<Longrightarrow> distinct (map fst (recvd s))"
  unfolding inv_def by blast

lemma inv_senders:
  "inv s \<Longrightarrow> set (map fst (recvd s)) = {i. i < length (tasks s) \<and> delivered (tasks s ! i)}"
  unfolding inv_def by blast

lemma inv_main: "inv s \<Longrightarrow> main_consistent s"
  unfolding inv_def by blast

lemma inv_closed_all_Finished:
  assumes "inv s" and "closer s = ClosedChan" and "i < length (tasks s)"
  shows "tasks s ! i = Finished"
proof -
  have "int (sum_list (map pending (tasks s))) = 0"
    using inv_wg [OF assms(1)] inv_closed [OF assms(1,2)] by simp
  then have "sum_list (map pending (tasks s)) = 0" by linarith
  then show ?thesis using assms(3) by (rule pending_zero_all_Finished)
qed

lemma inv_step:
  assumes "inv s" and "step ev s = Some s'"
  shows "inv s'"
  using assms(2)
proof (cases rule: step_cases)
  case (Run i body err w')
  have p: "sum_list (map pending ((tasks s)[i := Sending err])) = sum_list (map pending (tasks s))"
    using sum_list_map_update [of i "tasks s" pending "Sending err"] Run(2,3) by simp
  have d: "{j. j < length (tasks s) \<and> delivered ((tasks s)[i := Sending err] ! j)}
        = {j. j < length (tasks s) \<and> delivered (tasks s ! j)}"
    using Run(2,3) by (auto simp: nth_list_update)
  show ?thesis
  proof (rule invI)
    show "wg s' = int (sum_list (map pending (tasks s')))"
      using inv_wg [OF assms(1)] p by (simp add: Run(5))
    show "closer s' \<noteq> Unspawned"
      using inv_closer [OF assms(1)] by (simp add: Run(5))
    show "wg s' = 0" if "closer s' = ClosedChan"
      using inv_closed [OF assms(1)] that by (simp add: Run(5))
    show "distinct (map fst (recvd s'))"
      using inv_distinct [OF assms(1)] by (simp add: Run(5))
    show "set (map fst (recvd s')) = {i. i < length (tasks s') \<and> delivered (tasks s' ! i)}"
      using inv_senders [OF assms(1)] d by (simp add: Run(5))
    show "main_consistent s'"
      using inv_main [OF assms(1)] by (simp add: Run(5) main_consistent_def split: main_pc.splits option.splits)
  qed
next
  case (RecvNil i)
  have p: "sum_list (map pending ((tasks s)[i := Sent])) = sum_list (map pending (tasks s))"
    using sum_list_map_update [of i "tasks s" pending Sent] RecvNil(2,4) by simp
  have d: "{j. j < length (tasks s) \<and> delivered ((tasks s)[i := Sent] ! j)}
        = insert i {j. j < length (tasks s) \<and> delivered (tasks s ! j)}"
    using RecvNil(2) by (auto simp: nth_list_update)
  have n: "i \<notin> set (map fst (recvd s))"
    using inv_senders [OF assms(1)] RecvNil(4) by auto
  show ?thesis
  proof (rule invI)
    show "wg s' = int (sum_list (map pending (tasks s')))"
      using inv_wg [OF assms(1)] p by (simp add: RecvNil(5))
    show "closer s' \<noteq> Unspawned"
      using inv_closer [OF assms(1)] by (simp add: RecvNil(5))
    show "wg s' = 0" if "closer s' = ClosedChan"
      using inv_closed [OF assms(1)] that by (simp add: RecvNil(5))
    show "distinct (map fst (recvd s'))"
      using inv_distinct [OF assms(1)] n by (simp add: RecvNil(5))
    show "set (map fst (recvd s')) = {i. i < length (tasks s') \<and> delivered (tasks s' ! i)}"
      using inv_senders [OF assms(1)] d by (simp add: RecvNil(5))
    show "main_consistent s'"
      using inv_main [OF assms(1)] RecvNil(3) by (simp add: RecvNil(5) main_consistent_def)
  qed
next
  case (RecvErr i e)
  have p: "sum_list (map pending ((tasks s)[i := Sent])) = sum_list (map pending (tasks s))"
    using sum_list_map_update [of i "tasks s" pending Sent] RecvErr(2,4) by simp
  have d: "{j. j < length (tasks s) \<and> delivered ((tasks s)[i := Sent] ! j)}
        = insert i {j. j < length (tasks s) \<and> delivered (tasks s ! j)}"
    using RecvErr(2) by (auto simp: nth_list_update)
  have n: "i \<notin> set (map fst (recvd s))"
    using inv_senders [OF assms(1)] RecvErr(4) by auto
  show ?thesis
  proof (rule invI)
    show "wg s' = int (sum_list (map pending (tasks s')))"
      using inv_wg [OF assms(1)] p by (simp add: RecvErr(5))
    show "closer s' \<noteq> Unspawned"
      using inv_closer [OF assms(1)] by (simp add: RecvErr(5))
    show "wg s' = 0" if "closer s' = ClosedChan"
      using inv_closed [OF assms(1)] that by (simp add: RecvErr(5))
    show "distinct (map fst (recvd s'))"
      using inv_distinct [OF assms(1)] n by (simp add: RecvErr(5))
    show "set (map fst (recvd s')) = {i. i < length (tasks s') \<and> delivered (tasks s' ! i)}"
      using inv_senders [OF assms(1)] d by (simp add: RecvErr(5))
    show "main_consistent s'"
      using inv_main [OF assms(1)] RecvErr(3) by (simp add: RecvErr(5) main_consistent_def)
  qed
next
  case (Done i)
  have "sum_list (map pending ((tasks s)[i := Finished])) + 1 = sum_list (map pending (tasks s))"
    using sum_list_map_update [of i "tasks s" pending Finished] Done(2,3) by simp
  then have p: "int (sum_list (map pending ((tasks s)[i := Finished])))
                  = int (sum_list (map pending (tasks s))) - 1"
    by linarith
  have d: "{j. j < length (tasks s) \<and> delivered ((tasks s)[i := Finished] ! j)}
        = {j. j < length (tasks s) \<and> delivered (tasks s ! j)}"
    using Done(2,3) by (auto simp: nth_list_update)
  have c: "closer s \<noteq> ClosedChan"
    using inv_closed_all_Finished [OF assms(1) _ Done(2)] Done(3) by auto
  show ?thesis
  proof (rule invI)
    show "wg s' = int (sum_list (map pending (tasks s')))"
      using inv_wg [OF assms(1)] p by (simp add: Done(4))
    show "closer s' \<noteq> Unspawned"
      using inv_closer [OF assms(1)] by (simp add: Done(4))
    show "wg s' = 0" if "closer s' = ClosedChan"
      using c that by (simp add: Done(4))
    show "distinct (map fst (recvd s'))"
      using inv_distinct [OF assms(1)] by (simp add: Done(4))
    show "set (map fst (recvd s')) = {i. i < length (tasks s') \<and> delivered (tasks s' ! i)}"
      using inv_senders [OF assms(1)] d by (simp add: Done(4))
    show "main_consistent s'"
      using inv_main [OF assms(1)] c
      by (simp add: Done(4) main_consistent_def split: main_pc.splits option.splits)
  qed
next
  case Close
  show ?thesis
  proof (rule invI)
    show "wg s' = int (sum_list (map pending (tasks s')))"
      using inv_wg [OF assms(1)] by (simp add: Close(4))
    show "closer s' \<noteq> Unspawned"
      by (simp add: Close(4))
    show "wg s' = 0" if "closer s' = ClosedChan"
      using Close(3) by (simp add: Close(4))
    show "distinct (map fst (recvd s'))"
      using inv_distinct [OF assms(1)] by (simp add: Close(4))
    show "set (map fst (recvd s')) = {i. i < length (tasks s') \<and> delivered (tasks s' ! i)}"
      using inv_senders [OF assms(1)] by (simp add: Close(4))
    show "main_consistent s'"
      using inv_main [OF assms(1)]
      by (simp add: Close(4) main_consistent_def split: main_pc.splits option.splits)
  qed
next
  case EndRange
  show ?thesis
  proof (rule invI)
    show "wg s' = int (sum_list (map pending (tasks s')))"
      using inv_wg [OF assms(1)] by (simp add: EndRange(4))
    show "closer s' \<noteq> Unspawned"
      using inv_closer [OF assms(1)] by (simp add: EndRange(4))
    show "wg s' = 0" if "closer s' = ClosedChan"
      using inv_closed [OF assms(1)] that by (simp add: EndRange(4))
    show "distinct (map fst (recvd s'))"
      using inv_distinct [OF assms(1)] by (simp add: EndRange(4))
    show "set (map fst (recvd s')) = {i. i < length (tasks s') \<and> delivered (tasks s' ! i)}"
      using inv_senders [OF assms(1)] by (simp add: EndRange(4))
    show "main_consistent s'"
      using inv_main [OF assms(1)] EndRange(2,3) by (simp add: EndRange(4) main_consistent_def)
  qed
qed

lemma inv_exec: "inv s \<Longrightarrow> exec evs s = Some s' \<Longrightarrow> inv s'"
  by (induction evs arbitrary: s) (auto split: option.splits dest: inv_step)

lemma exec_length: "exec evs s = Some s' \<Longrightarrow> length (tasks s') = length (tasks s)"
  by (induction evs arbitrary: s) (auto split: option.splits dest: step_length)

lemma potential_step:
  assumes "step ev s = Some s'"
  shows "potential s' < potential s"
  using assms
proof (cases rule: step_cases)
  case (Run i body err w')
  then show ?thesis
    using sum_list_map_update [of i "tasks s" rank "Sending err"]
    by (simp add: potential_def)
next
  case (RecvNil i)
  then show ?thesis
    using sum_list_map_update [of i "tasks s" rank Sent]
    by (simp add: potential_def)
next
  case (RecvErr i e)
  then show ?thesis
    using sum_list_map_update [of i "tasks s" rank Sent]
    by (simp add: potential_def)
next
  case (Done i)
  then show ?thesis
    using sum_list_map_update [of i "tasks s" rank Finished]
    by (simp add: potential_def)
next
  case Close
  then show ?thesis by (simp add: potential_def)
next
  case EndRange
  then show ?thesis by (simp add: potential_def)
qed

lemma potential_exec: "exec evs s = Some s' \<Longrightarrow> length evs + potential s' \<le> potential s"
proof (induction evs arbitrary: s)
  case Nil
  then show ?case by simp
next
  case (Cons ev evs)
  then obtain s1 where a: "step ev s = Some s1" and b: "exec evs s1 = Some s'"
    by (auto split: option.splits)
  from potential_step [OF a] Cons.IH [OF b] show ?case by simp
qed

lemma Init_redis_failed: "Init ''0.3.0'' failing_host [Run 2, Recv 2] = Some redis_failed"
  by (simp add: Init_def Init_begin_def getActionsDir_def failing_host_def linux_host_def
        example_host_def os_MkdirAll_def called_def path_Join_def path_Clean_def initSteps_def
        runRedis_def runCmd_def redis_failed_def)

lemma exec_placement_blocked: "exec [Run 1] redis_failed = Some placement_blocked"
  by (simp add: redis_failed_def placement_blocked_def runPlacementService_def runCmd_def
        called_def failing_host_def linux_host_def example_host_def)


lemma Init_begin_cases [case_names Failed Spawned]:
  obtains err w1 where "getActionsDir w = (Inl err, w1)"
      "Init_begin v w = \<lparr>tasks = [], wg = 0, closer = Unspawned, main = Returned (Some err),
                          recvd = [], spinning = False, host = w1\<rparr>"
  | dir w1 where "getActionsDir w = (Inr dir, w1)"
      "Init_begin v w = \<lparr>tasks = map (\<lambda>step. Running (step dir v)) initSteps,
                          wg = int (length initSteps), closer = Waiting, main = Draining,
                          recvd = [], spinning = (GOOS w1 \<noteq> ''windows''), host = w1\<rparr>"
proof (cases "getActionsDir w")
  case (Pair r w1)
  then show ?thesis
    using that by (cases r) (simp_all add: Init_begin_def)
qed

lemma step_Unspawned:
  "tasks s = [] \<Longrightarrow> closer s = Unspawned \<Longrightarrow> main s = Returned r \<Longrightarrow> step ev s = None"
  by (cases ev) simp_all

lemma exec_no_step:
  assumes "\<And>ev. step ev s = None" and "exec evs s = Some s'"
  shows "evs = [] \<and> s' = s"
  using assms by (cases evs) simp_all

lemma pending_Running: "sum_list (map (pending \<circ> (\<lambda>x. Running (g x))) xs) = length xs"
  by (induction xs) simp_all

lemma rank_Running: "sum_list (map (rank \<circ> (\<lambda>x. Running (g x))) xs) = 3 * length xs"
  by (induction xs) simp_all

lemma inv_spawned:
  "inv \<lparr>tasks = map (\<lambda>step. Running (step dir v)) initSteps,
        wg = int (length initSteps), closer = Waiting, main = Draining,
        recvd = [], spinning = b, host = w1\<rparr>"
proof (rule invI)
  show "main_consistent \<lparr>tasks = map (\<lambda>step. Running (step dir v)) initSteps,
        wg = int (length initSteps), closer = Waiting, main = Draining,
        recvd = [], spinning = b, host = w1\<rparr>"
    by (simp add: main_consistent_def all_nil_def)
qed (simp_all add: pending_Running)

lemma potential_spawned:
  "potential \<lparr>tasks = map (\<lambda>step. Running (step dir v)) initSteps,
        wg = int (length initSteps), closer = Waiting, main = Draining,
        recvd = [], spinning = b, host = w1\<rparr> = 3 * length initSteps + 2"
  by (simp add: potential_def rank_Running)

lemma Init_cases [consumes 1, case_names Failed Spawned]:
  assumes "Init v w evs = Some s"
  obtains err where "evs = []" "main s = Returned (Some err)" "recvd s = []" "tasks s = []"
  | "inv s" "length (tasks s) = length initSteps"
      "length evs + potential s \<le> 3 * length initSteps + 2"
proof (cases rule: Init_begin_cases [of w v])
  case (Failed err w1)
  have "step ev (Init_begin v w) = None" for ev
    by (rule step_Unspawned [where r = "Some err"]) (simp_all add: Failed(2))
  then have "evs = [] \<and> s = Init_begin v w"
    using assms unfolding Init_def by (rule exec_no_step)
  then show ?thesis
    using that(1) [of err] by (simp add: Failed(2))
next
  case (Spawned dir w1)
  have e: "exec evs (Init_begin v w) = Some s"
    using assms by (simp add: Init_def)
  have "inv (Init_begin v w)"
    unfolding Spawned(2) by (rule inv_spawned)
  then have 1: "inv s" using e by (rule inv_exec)
  have 2: "length (tasks s) = length initSteps"
    using exec_length [OF e] by (simp add: Spawned(2))
  have 3: "length evs + potential s \<le> 3 * length initSteps + 2"
    using potential_exec [OF e] potential_spawned [of dir v "GOOS w1 \<noteq> ''windows''" w1]
    unfolding Spawned(2) by simp
  show ?thesis using 1 2 3 by (rule that(2))
qed



lemma first_error_append:
  "all_nil pre \<Longrightarrow> first_error (pre @ vs) = first_error vs"
  by (induction pre rule: first_error.induct) (simp_all add: all_nil_def)


lemma all_nil_no_error: "all_nil vs \<Longrightarrow> (i, Some e) \<notin> set vs"
  by (auto simp: all_nil_def list_all_iff)


text \<open>
  C1. In every state \<open>Init\<close> and its goroutines reach, if some task \<open>i\<close> has delivered an
  error \<open>e\<close> on the channel, then \<open>Init\<close> has returned \<open>e\<close>; \<open>e\<close> is the first value read that is
  not \<open>nil\<close> and the last value read at all, whichever task sent it. The return happens
  in the step that reads \<open>e\<close>, whatever the other tasks are doing.
\<close>

theorem Init_returns_first_error:
  assumes "Init runtimeVersion w evs = Some s" and "(i, Some e) \<in> set (recvd s)"
  shows "main s = Returned (Some e) \<and> first_error (recvd s) = Some e \<and>
         (\<exists>pre. recvd s = pre @ [(i, Some e)] \<and> all_nil pre)"
  using assms(1)
proof (cases rule: Init_cases)
  case (Failed err)
  then show ?thesis using assms(2) by simp
next
  case Spawned
  have m: "main_consistent s" using Spawned(1) by (rule inv_main)
  show ?thesis
  proof (cases "main s")
    case Draining
    then have "all_nil (recvd s)" using m by (simp add: main_consistent_def)
    then show ?thesis using assms(2) all_nil_no_error by blast
  next
    case (Returned r)
    show ?thesis
    proof (cases r)
      case None
      then have "all_nil (recvd s)" using m Returned by (simp add: main_consistent_def)
      then show ?thesis using assms(2) all_nil_no_error by blast
    next
      case (Some e')
      then obtain pre j where r: "recvd s = pre @ [(j, Some e')]" and p: "all_nil pre"
        using m Returned by (auto simp: main_consistent_def)
      have "(i, Some e) \<notin> set pre" using p by (rule all_nil_no_error)
      then have eq: "i = j \<and> e = e'" using assms(2) r by simp
      have "first_error (recvd s) = Some e'"
        using first_error_append [OF p, of "[(j, Some e')]"] r by simp
      then show ?thesis using Returned Some r p eq by simp
    qed
  qed
qed

theorem Init_returns_first_error_witness:
  "Init ''0.3.0'' failing_host [Run 2, Recv 2] = Some redis_failed \<and>
   (2, Some (ExitError 1 ''exit status 1'')) \<in> set (recvd redis_failed) \<and>
   main redis_failed = Returned (Some (ExitError 1 ''exit status 1'')) \<and>
   first_error (recvd redis_failed) = Some (ExitError 1 ''exit status 1'') \<and>
   \<not> delivered (tasks redis_failed ! 0) \<and> \<not> delivered (tasks redis_failed ! 1)"
proof -
  have m: "(2, Some (ExitError 1 ''exit status 1'')) \<in> set (recvd redis_failed)"
    by (simp add: redis_failed_def)
  have u: "\<not> delivered (tasks redis_failed ! 0) \<and> \<not> delivered (tasks redis_failed ! 1)"
    by (simp add: redis_failed_def)
  show ?thesis
    using Init_redis_failed m u Init_returns_first_error [OF Init_redis_failed m]
    by blast
qed



lemma undelivered_step:
  assumes "step ev s = Some s'" and "main s = Returned r"
    and "i < length (tasks s)" and "\<not> delivered (tasks s ! i)"
  shows "main s' = Returned r \<and> \<not> delivered (tasks s' ! i)"
  using assms(1)
proof (cases rule: step_cases)
  case (Run j body err w')
  then show ?thesis using assms(2,3,4) by (simp add: nth_list_update)
next
  case (RecvNil j)
  then show ?thesis using assms(2) by simp
next
  case (RecvErr j e)
  then show ?thesis using assms(2) by simp
next
  case (Done j)
  then show ?thesis using assms(2,3,4) by (auto simp add: nth_list_update)
next
  case Close
  then show ?thesis using assms(2,4) by simp
next
  case EndRange
  then show ?thesis using assms(2) by simp
qed

lemma undelivered_exec:
  assumes "exec evs s = Some s'" and "main s = Returned r"
    and "i < length (tasks s)" and "\<not> delivered (tasks s ! i)"
  shows "main s' = Returned r \<and> \<not> delivered (tasks s' ! i)"
  using assms
proof (induction evs arbitrary: s)
  case Nil
  then show ?case by simp
next
  case (Cons ev evs)
  then obtain s1 where a: "step ev s = Some s1" and b: "exec evs s1 = Some s'"
    by (auto split: option.splits)
  have c: "main s1 = Returned r \<and> \<not> delivered (tasks s1 ! i)"
    using a Cons.prems(2,3,4) by (rule undelivered_step)
  have l: "i < length (tasks s1)"
    using step_length [OF a] Cons.prems(3) by simp
  show ?case using Cons.IH [OF b _ l] c by blast
qed

lemma pending_pos:
  assumes "i < length ts" and "ts ! i \<noteq> Finished"
  shows "0 < sum_list (map pending ts)"
proof (rule ccontr)
  assume "\<not> 0 < sum_list (map pending ts)"
  then have "sum_list (map pending ts) = 0" by simp
  then have "ts ! i = Finished" using assms(1) by (rule pending_zero_all_Finished)
  then show False using assms(2) by simp
qed

text \<open>
  C9, as the code has it. Once \<open>Init\<close> has returned, nothing receives from the unbuffered
  channel: a task whose value has not been read by then never completes its send, in any
  continuation of the run. Its deferred \<open>wg.Done()\<close> never runs, the counter of the wait
  group stays positive and the channel is never closed.
\<close>

theorem Init_undelivered_task_blocked:
  assumes "Init runtimeVersion w evs = Some s" and "main s = Returned r"
    and "i < length (tasks s)" and "\<not> delivered (tasks s ! i)"
    and "exec evs' s = Some s'"
  shows "\<not> delivered (tasks s' ! i) \<and> tasks s' ! i \<noteq> Finished \<and> closer s' \<noteq> ClosedChan \<and>
         0 < wg s'"
  using assms(1)
proof (cases rule: Init_cases)
  case (Failed err)
  then show ?thesis using assms(3) by simp
next
  case Spawned
  have u: "\<not> delivered (tasks s' ! i)"
    using undelivered_exec [OF assms(5,2,3,4)] by blast
  then have f: "tasks s' ! i \<noteq> Finished" by auto
  have l: "i < length (tasks s')"
    using exec_length [OF assms(5)] assms(3) by simp
  have v: "inv s'" using Spawned(1) assms(5) by (rule inv_exec)
  have g: "0 < wg s'"
    using inv_wg [OF v] pending_pos [OF l f] by simp
  then have "closer s' \<noteq> ClosedChan"
    using inv_closed [OF v] by auto
  then show ?thesis using u f g by blast
qed

theorem Init_undelivered_task_blocked_witness:
  "Init ''0.3.0'' failing_host [Run 2, Recv 2] = Some redis_failed \<and>
   main redis_failed = Returned (Some (ExitError 1 ''exit status 1'')) \<and>
   1 < length (tasks redis_failed) \<and>
   \<not> delivered (tasks redis_failed ! 1) \<and>
   exec [Run 1] redis_failed = Some placement_blocked \<and>
   tasks placement_blocked ! 1 = Sending (Some (ExitError 1 ''exit status 1'')) \<and>
   \<not> delivered (tasks placement_blocked ! 1) \<and>
   tasks placement_blocked ! 1 \<noteq> Finished \<and>
   closer placement_blocked \<noteq> ClosedChan \<and>
   0 < wg placement_blocked"
proof -
  have m: "main redis_failed = Returned (Some (ExitError 1 ''exit status 1''))"
    by (simp add: redis_failed_def)
  have l: "1 < length (tasks redis_failed)"
    by (simp add: redis_failed_def)
  have u: "\<not> delivered (tasks redis_failed ! 1)"
    by (simp add: redis_failed_def)
  have p: "tasks placement_blocked ! 1 = Sending (Some (ExitError 1 ''exit status 1''))"
    by (simp add: placement_blocked_def)
  show ?thesis
    using Init_redis_failed m l u exec_placement_blocked p
      Init_undelivered_task_blocked [OF Init_redis_failed m l u exec_placement_blocked]
    by blast
qed

end
